theory Spec2Isabelle
  imports Main
begin

section \<open>JavaScript values\<close>

text \<open>
  The module \<^verbatim>\<open>src/stateStream.js\<close> is dynamically typed: it inspects its arguments with
  \<^verbatim>\<open>typeof\<close>, with truthiness tests and with \<^verbatim>\<open>instanceof Rx.Observable\<close>. Values are
  therefore modelled by one datatype. Function objects and observables are references
  (JavaScript compares them by identity); what a function does when called is given by
  an environment, see \<open>fenv\<close> below. \<open>Num\<close> stands for the integer-valued numbers.
  A plain object is the list of its own properties in the order \<^verbatim>\<open>Object.keys\<close>
  enumerates them.
\<close>

type_synonym ref = nat

datatype val =
    Undefined
  | Null
  | Bool bool
  | Num int
  | Str string
  | Fun ref
  | Observable ref
  | Obj "(string \<times> val) list"

type_synonym props = "(string \<times> val) list"

text \<open>
  \<^verbatim>\<open>throw new Error(msg)\<close> is \<open>Throw (Error msg)\<close>; reading a property of \<^verbatim>\<open>null\<close> makes
  the engine throw a \<^verbatim>\<open>TypeError\<close>.
\<close>

datatype error = Error string | TypeError

datatype 'a result = Throw error | Return 'a

fun is_Throw :: "'a result \<Rightarrow> bool" where
  "is_Throw (Throw e) = True"
| "is_Throw (Return x) = False"

fun returned :: "'a result \<Rightarrow> 'a option" where
  "returned (Return x) = Some x"
| "returned (Throw e) = None"

fun typeof :: "val \<Rightarrow> string" where
  "typeof Undefined = ''undefined''"
| "typeof Null = ''object''"
| "typeof (Bool b) = ''boolean''"
| "typeof (Num n) = ''number''"
| "typeof (Str s) = ''string''"
| "typeof (Fun f) = ''function''"
| "typeof (Observable r) = ''object''"
| "typeof (Obj ps) = ''object''"

text \<open>\<^verbatim>\<open>!v\<close> is \<open>\<not> truthy v\<close>.\<close>

fun truthy :: "val \<Rightarrow> bool" where
  "truthy Undefined = False"
| "truthy Null = False"
| "truthy (Bool b) = b"
| "truthy (Num n) = (n \<noteq> 0)"
| "truthy (Str s) = (s \<noteq> [])"
| "truthy (Fun f) = True"
| "truthy (Observable r) = True"
| "truthy (Obj ps) = True"

text \<open>
  \<^verbatim>\<open>v.k\<close> for a value whose \<^verbatim>\<open>typeof\<close> is \<^verbatim>\<open>'object'\<close> and that is not \<^verbatim>\<open>null\<close>; the
  properties asked for in this module (\<^verbatim>\<open>name\<close>, \<^verbatim>\<open>state$\<close>, \<^verbatim>\<open>type\<close>) are not inherited
  from a prototype, so a missing own property reads as \<^verbatim>\<open>undefined\<close>.
\<close>

fun get :: "val \<Rightarrow> string \<Rightarrow> val" where
  "get (Obj ps) k = (case map_of ps k of None \<Rightarrow> Undefined | Some v \<Rightarrow> v)"
| "get v k = Undefined"

subsection \<open>Own properties of a plain object\<close>

text \<open>
  A property name that is a canonical array index (\<^verbatim>\<open>"0"\<close>, \<^verbatim>\<open>"1"\<close>, \<dots> up to
  \<open>2\<^sup>3\<^sup>2 - 2\<close>, no leading zero) is enumerated before every other name, in ascending
  numeric order; the other names follow in the order in which they were created.
\<close>

definition str_nat :: "string \<Rightarrow> nat" where
  "str_nat s = foldl (\<lambda>n c. 10 * n + (of_char c - 48)) 0 s"

definition is_array_index :: "string \<Rightarrow> bool" where
  "is_array_index s =
     (s \<noteq> [] \<and> list_all (\<lambda>c. c \<in> set ''0123456789'') s
      \<and> (if hd s = CHR ''0'' then s = ''0'' else True)
      \<and> str_nat s < 2 ^ 32 - 1)"

fun insert_index :: "string \<Rightarrow> val \<Rightarrow> props \<Rightarrow> props" where
  "insert_index k v [] = [(k, v)]"
| "insert_index k v ((k', v') # ps) =
     (if is_array_index k' \<and> str_nat k' < str_nat k
      then (k', v') # insert_index k v ps
      else (k, v) # (k', v') # ps)"

text \<open>
  \<^verbatim>\<open>o[k] = v\<close> on an object made by the literal \<^verbatim>\<open>{}\<close>. An existing key keeps its place.
  The name \<^verbatim>\<open>__proto__\<close> is the accessor inherited from \<^verbatim>\<open>Object.prototype\<close>: assigning
  to it runs the setter and creates no own property.
\<close>

definition obj_set :: "string \<Rightarrow> val \<Rightarrow> props \<Rightarrow> props" where
  "obj_set k v ps =
     (if k = ''__proto__'' then ps
      else if k \<in> set (map fst ps) then map (\<lambda>(k', v'). if k' = k then (k', v) else (k', v')) ps
      else if is_array_index k then insert_index k v ps
      else ps @ [(k, v)])"

text \<open>\<^verbatim>\<open>Object.keys(o)\<close>.\<close>

definition keys :: "props \<Rightarrow> string list" where
  "keys ps = map fst ps"

text \<open>
  The property key a value is converted to by \<^verbatim>\<open>o[v]\<close>: a string is its own key, a number
  is written in decimal (\<open>Num\<close> stands for the integers that JavaScript prints without
  an exponent), a boolean is \<^verbatim>\<open>"true"\<close> or \<^verbatim>\<open>"false"\<close>. An object that does not define
  \<^verbatim>\<open>toString\<close> becomes \<^verbatim>\<open>"[object Object]"\<close>. The text of a function and a
  \<^verbatim>\<open>toString\<close> method of the user are not part of the model: \<open>primitive_named\<close> below
  marks the sources whose key the model computes exactly.
\<close>

fun decimal :: "nat \<Rightarrow> string" where
  "decimal n =
     (if n < 10 then [''0123456789'' ! n]
      else decimal (n div 10) @ [''0123456789'' ! (n mod 10)])"

declare decimal.simps [simp del]

fun prop_key :: "val \<Rightarrow> string" where
  "prop_key (Str s) = s"
| "prop_key (Num n) = (if n < 0 then ''-'' @ decimal (nat (- n)) else decimal (nat n))"
| "prop_key (Bool b) = (if b then ''true'' else ''false'')"
| "prop_key Undefined = ''undefined''"
| "prop_key Null = ''null''"
| "prop_key v = ''[object Object]''"

section \<open>The relay stream (\<^verbatim>\<open>createRelay\<close>)\<close>

definition SOURCE :: string where
  "SOURCE = ''SOURCE''"

definition RELAY :: string where
  "RELAY = ''RELAY''"

text \<open>
  The \<^verbatim>\<open>sources.forEach\<close> of lines 128--134, threading \<^verbatim>\<open>sourceNames\<close>. The test
  \<^verbatim>\<open>typeof source !== 'object' || !source.name || \<dots>\<close> is evaluated left to right, so
  \<^verbatim>\<open>null\<close> (whose \<^verbatim>\<open>typeof\<close> is \<^verbatim>\<open>'object'\<close>) reaches \<^verbatim>\<open>source.name\<close>, which throws.
\<close>

fun check_sources :: "val list \<Rightarrow> props \<Rightarrow> props result" where
  "check_sources [] sourceNames = Return sourceNames"
| "check_sources (source # rest) sourceNames =
     (if typeof source \<noteq> ''object''
      then Throw (Error ''Expected the source to be type of StateStream.'')
      else if source = Null then Throw TypeError
      else if \<not> truthy (get source ''name'') \<or> \<not> truthy (get source ''state$'')
              \<or> \<not> truthy (get source ''type'')
      then Throw (Error ''Expected the source to be type of StateStream.'')
      else check_sources rest (obj_set (prop_key (get source ''name'')) (Num 1) sourceNames))"

text \<open>
  The relay object: \<^verbatim>\<open>name\<close>, \<^verbatim>\<open>type: RELAY\<close>, and the sources its \<^verbatim>\<open>state$\<close> combines.
\<close>

record relay =
  relay_name :: val
  relay_type :: string
  relay_sources :: "val list"

definition createRelay :: "val \<Rightarrow> val list \<Rightarrow> relay result" where
  "createRelay name sources =
     (if length sources = 0 then Throw (Error ''Expected the sources to be passed.'')
      else case check_sources sources [] of
        Throw e \<Rightarrow> Throw e
      | Return sourceNames \<Rightarrow>
          if length (keys sourceNames) \<noteq> length sources
          then Throw (Error ''Sources' name should be unique.'')
          else Return \<lparr>relay_name = name, relay_type = RELAY, relay_sources = sources\<rparr>)"

text \<open>
  The projection handed to \<^verbatim>\<open>combineLatest\<close> (lines 141--149):
  \<^verbatim>\<open>sources.forEach((source, index) => { state[source.name] = states[index] })\<close>.
  An index beyond \<^verbatim>\<open>states\<close> reads \<^verbatim>\<open>undefined\<close>.
\<close>

fun assign_states :: "val list \<Rightarrow> val list \<Rightarrow> props \<Rightarrow> props" where
  "assign_states [] states state = state"
| "assign_states (source # rest) states state =
     assign_states rest (tl states)
       (obj_set (prop_key (get source ''name''))
                (case states of [] \<Rightarrow> Undefined | s # _ \<Rightarrow> s) state)"

definition project :: "val list \<Rightarrow> val list \<Rightarrow> val" where
  "project sources states = Obj (assign_states sources states [])"

text \<open>
  \<^verbatim>\<open>Rx.Observable.combineLatest(...states$, project)\<close>, as RxJS documents it: one
  subscription keeps the latest value of every input (none yet: \<open>None\<close>); when input
  \<open>i\<close> emits \<open>v\<close> the slot is overwritten, and if every slot is filled the projection
  of the latest values is emitted.
\<close>

definition combineLatest_next ::
  "(val list \<Rightarrow> val) \<Rightarrow> nat \<Rightarrow> val \<Rightarrow> val option list \<Rightarrow> val option list \<times> val option" where
  "combineLatest_next proj i v vals =
     (let vals' = vals[i := Some v]
      in (vals', if list_all (\<lambda>x. x \<noteq> None) vals' then Some (proj (map the vals')) else None))"

text \<open>
  One subscription to the relay's \<^verbatim>\<open>state$\<close>, fed the emissions of its inputs in the order
  they happen (\<open>(i, v)\<close>: \<^verbatim>\<open>sources[i].state$\<close> emitted \<open>v\<close>); the result is what the
  subscriber receives, in order.
\<close>

fun relay_run :: "relay \<Rightarrow> (nat \<times> val) list \<Rightarrow> val option list \<Rightarrow> val list" where
  "relay_run r [] vals = []"
| "relay_run r ((i, v) # ins) vals =
     (case combineLatest_next (project (relay_sources r)) i v vals of
        (vals', None) \<Rightarrow> relay_run r ins vals'
      | (vals', Some snapshot) \<Rightarrow> snapshot # relay_run r ins vals')"

definition relay_state :: "relay \<Rightarrow> (nat \<times> val) list \<Rightarrow> val list" where
  "relay_state r ins = relay_run r ins (replicate (length (relay_sources r)) None)"

text \<open>The latest value input \<open>j\<close> has emitted in \<open>ins\<close>, if any.\<close>

definition latest :: "(nat \<times> val) list \<Rightarrow> nat \<Rightarrow> val option" where
  "latest ins j = map_of (rev ins) j"

section \<open>The source stream (\<^verbatim>\<open>createSource\<close>)\<close>

text \<open>
  What the functions passed to the module do when called. The module calls three kinds
  of user functions: an event handler \<^verbatim>\<open>fn(currentEvent$, ...params)\<close>, whose returned
  sequence emits state updates; an updater \<^verbatim>\<open>updater(prev)\<close>; and an observer
  \<^verbatim>\<open>observer(state$)\<close>. \<open>handler_emits g snapshot params\<close> lists what the sequence returned
  by handler \<open>g\<close> emits synchronously, in order, given the element \<^verbatim>\<open>{state: \<dots>}\<close> carried
  by \<^verbatim>\<open>currentEvent$\<close>; a later (asynchronous) emission is a step of its own, see
  \<open>handler_next\<close>. User functions are taken to return normally, and the subscribers of
  \<^verbatim>\<open>state$\<close> and of the reply sequences only receive: they do not call back into the
  stream while a value is delivered to them.
\<close>

record fenv =
  handler_emits :: "ref \<Rightarrow> val \<Rightarrow> val list \<Rightarrow> val list"
  call_updater :: "ref \<Rightarrow> val \<Rightarrow> val"
  call_observer :: "ref \<Rightarrow> val \<Rightarrow> val"

text \<open>
  The state of one source stream: the closure variables of \<^verbatim>\<open>createSource\<close> and the Rx
  objects they hold.
  \<^item> \<open>observers\<close>: the array \<^verbatim>\<open>observers\<close> (the registered handlers);
  \<^item> \<open>subjectOf\<close>: the property \<^verbatim>\<open>subject\<close> of function objects, written by
    \<^verbatim>\<open>fn.subject = subject\<close> (the most recent write to a function comes first); the
    model follows one source stream, whose handlers are registered on no other stream;
  \<^item> \<open>nextSubject\<close>: the reference the next \<^verbatim>\<open>new Rx.Subject()\<close> gets;
  \<^item> \<open>stateValue\<close>: the value held by \<^verbatim>\<open>stateSubject\<close> (\<^verbatim>\<open>stateSubject.getValue()\<close>);
  \<^item> \<open>stateObservers\<close>: the subscribers of \<^verbatim>\<open>state$\<close>, and \<open>received\<close>: what they were
    delivered, \<open>(subscriber, value)\<close> in the order of delivery;
  \<^item> \<open>pushed\<close>: every \<^verbatim>\<open>subject.next(value)\<close> on a reply subject, \<open>(subject, value)\<close> in
    order;
  \<^item> \<open>waiting\<close>: the subscribers of a \<^verbatim>\<open>subject.first()\<close> that have not resolved yet,
    \<open>(subject, subscriber)\<close>, and \<open>replies\<close>: what such subscribers were delivered.
\<close>

record source =
  source_name :: val
  source_type :: string
  observers :: "ref list"
  subjectOf :: "(ref \<times> ref) list"
  nextSubject :: ref
  stateValue :: val
  stateObservers :: "ref list"
  received :: "(ref \<times> val) list"
  pushed :: "(ref \<times> val) list"
  waiting :: "(ref \<times> ref) list"
  replies :: "(ref \<times> val) list"

text \<open>
  \<^verbatim>\<open>new Rx.BehaviorSubject(initialState)\<close>, an empty registry, no subscriber yet
  (lines 39--45 and 109--116).
\<close>

definition createSource :: "val \<Rightarrow> val \<Rightarrow> source" where
  "createSource name initialState =
     \<lparr>source_name = name, source_type = SOURCE, observers = [], subjectOf = [],
      nextSubject = 0, stateValue = initialState, stateObservers = [], received = [],
      pushed = [], waiting = [], replies = []\<rparr>"

text \<open>
  Subscribing \<open>k\<close> to \<^verbatim>\<open>state$\<close>, that is to
  \<^verbatim>\<open>stateSource$.multicast(stateSubject).refCount()\<close>: the subscriber is attached to the
  BehaviorSubject, which hands it the current value at once; \<^verbatim>\<open>stateSource$\<close> itself
  never emits.
\<close>

definition subscribe_state :: "ref \<Rightarrow> source \<Rightarrow> source" where
  "subscribe_state k st =
     st\<lparr>stateObservers := stateObservers st @ [k],
        received := received st @ [(k, stateValue st)]\<rparr>"

text \<open>\<^verbatim>\<open>stateSubject.next(v)\<close>: store the value, deliver it to every subscriber.\<close>

definition stateSubject_next :: "val \<Rightarrow> source \<Rightarrow> source" where
  "stateSubject_next v st =
     st\<lparr>stateValue := v,
        received := received st @ map (\<lambda>k. (k, v)) (stateObservers st)\<rparr>"

text \<open>
  \<^verbatim>\<open>subject.next(v)\<close> on a reply subject: a plain Subject keeps nothing; the value goes
  to the subscribers present, and a subscriber through \<^verbatim>\<open>first()\<close> completes with it.
\<close>

definition subject_next :: "ref \<Rightarrow> val \<Rightarrow> source \<Rightarrow> source" where
  "subject_next s v st =
     st\<lparr>pushed := pushed st @ [(s, v)],
        replies := replies st @ map (\<lambda>(s', k). (k, v)) (filter (\<lambda>(s', k). s' = s) (waiting st)),
        waiting := filter (\<lambda>(s', k). s' \<noteq> s) (waiting st)\<rparr>"

text \<open>The sequence \<^verbatim>\<open>subject.first()\<close> a dispatcher returns, and subscribing \<open>k\<close> to it.\<close>

datatype reply = First ref

fun subscribe_reply :: "reply \<Rightarrow> ref \<Rightarrow> source \<Rightarrow> source" where
  "subscribe_reply (First s) k st = st\<lparr>waiting := waiting st @ [(s, k)]\<rparr>"

text \<open>
  The element \<^verbatim>\<open>event$\<close> delivers (lines 58--61): \<^verbatim>\<open>{state, subject: currentObserver.subject}\<close>,
  built when the handler's sequence emits \<^verbatim>\<open>state\<close>.
\<close>

record loop_event =
  ev_state :: val
  ev_subject :: "ref option"

definition map_project :: "ref \<Rightarrow> val \<Rightarrow> source \<Rightarrow> loop_event" where
  "map_project currentObserver state st =
     \<lparr>ev_state = state, ev_subject = map_of (subjectOf st) currentObserver\<rparr>"

text \<open>
  The callback of \<^verbatim>\<open>event$.subscribe\<close> (lines 67--85). Its argument is always an object, so
  the guard \<^verbatim>\<open>if (!event)\<close> never fires.
\<close>

definition on_event :: "fenv \<Rightarrow> loop_event \<Rightarrow> source \<Rightarrow> source" where
  "on_event env event st =
     (let updater = ev_state event; subject = ev_subject event
      in if updater = Undefined then st
         else
           let nextState = (case updater of Fun g \<Rightarrow> call_updater env g (stateValue st)
                                           | _ \<Rightarrow> updater);
               st' = stateSubject_next nextState st
           in case subject of
                None \<Rightarrow> st'
              | Some s \<Rightarrow> subject_next s (Obj [(''state'', nextState)]) st')"

text \<open>The sequence returned by handler \<open>g\<close> emits \<open>u\<close>.\<close>

definition handler_next :: "fenv \<Rightarrow> ref \<Rightarrow> val \<Rightarrow> source \<Rightarrow> source" where
  "handler_next env g u st = on_event env (map_project g u st) st"

text \<open>
  An Event Message, and what the emitter's listener does with it: the \<^verbatim>\<open>mergeMap\<close> of
  lines 51--65 followed by the synchronous emissions of the handler's sequence.
\<close>

record event =
  event_type :: val
  event_params :: "val list"

definition dispatch :: "fenv \<Rightarrow> event \<Rightarrow> source \<Rightarrow> source" where
  "dispatch env ev st =
     (case find (\<lambda>observer. Fun observer = event_type ev) (observers st) of
        None \<Rightarrow> st
      | Some currentObserver \<Rightarrow>
          foldl (\<lambda>s u. handler_next env currentObserver u s) st
            (handler_emits env currentObserver (Obj [(''state'', stateValue st)]) (event_params ev)))"

text \<open>
  \<^verbatim>\<open>createEvent(fn)\<close> (lines 87--107). The dispatcher it returns closes over \<^verbatim>\<open>fn\<close> and
  \<^verbatim>\<open>subject\<close>; it is represented by that pair.
\<close>

type_synonym dispatcher = "ref \<times> ref"

definition createEvent :: "val \<Rightarrow> source \<Rightarrow> (dispatcher \<times> source) result" where
  "createEvent fn st =
     (case fn of
        Fun g \<Rightarrow>
          let subject = nextSubject st
          in Return ((g, subject),
                     st\<lparr>nextSubject := Suc subject,
                        subjectOf := (g, subject) # subjectOf st,
                        observers := observers st @ [g]\<rparr>)
      | _ \<Rightarrow> Throw (Error ''Expected param of createEvent to be a function.''))"

text \<open>Calling a dispatcher: emit the message, then return \<^verbatim>\<open>subject.first()\<close>.\<close>

definition call_dispatcher :: "fenv \<Rightarrow> dispatcher \<Rightarrow> val list \<Rightarrow> source \<Rightarrow> reply \<times> source" where
  "call_dispatcher env d params st =
     (First (snd d), dispatch env \<lparr>event_type = Fun (fst d), event_params = params\<rparr> st)"

section \<open>\<^verbatim>\<open>observe\<close> (\<^verbatim>\<open>stateObserver\<close>)\<close>

text \<open>
  \<^verbatim>\<open>stateObserver(state$)(observer)\<close>, lines 21--33. \<open>subscribed\<close> lists the sequences
  subscribed so far; the function has no \<^verbatim>\<open>return\<close>, so a call that does not throw
  yields \<^verbatim>\<open>undefined\<close>.
\<close>

definition stateObserver :: "fenv \<Rightarrow> val \<Rightarrow> val \<Rightarrow> ref list \<Rightarrow> (val \<times> ref list) result" where
  "stateObserver env state observer subscribed =
     (case observer of
        Fun g \<Rightarrow>
          (case call_observer env g state of
             Observable stream \<Rightarrow> Return (Undefined, subscribed @ [stream])
           | _ \<Rightarrow> Throw (Error ''Expected observer return an Observable instance.''))
      | _ \<Rightarrow> Throw (Error ''Expected observer to be a function.''))"

section \<open>The factory (\<^verbatim>\<open>createStateStream\<close>)\<close>

text \<open>\<^verbatim>\<open>String.prototype.toUpperCase\<close> on the ASCII letters; other characters are kept.\<close>

definition upper_char :: "char \<Rightarrow> char" where
  "upper_char c =
     (case map_of (zip ''abcdefghijklmnopqrstuvwxyz'' ''ABCDEFGHIJKLMNOPQRSTUVWXYZ'') c of
        Some C \<Rightarrow> C
      | None \<Rightarrow> c)"

definition toUpperCase :: "string \<Rightarrow> string" where
  "toUpperCase s = map upper_char s"

datatype stream = SourceStream source | RelayStream relay

text \<open>
  Lines 160--186. \<open>sources\<close> is \<open>None\<close> when the argument is missing (\<^verbatim>\<open>undefined\<close>);
  \<open>Return None\<close> is \<^verbatim>\<open>return null\<close>. \<^verbatim>\<open>toUpperCase\<close> is only reached with a string.
\<close>

definition createStateStream ::
  "val \<Rightarrow> val \<Rightarrow> val \<Rightarrow> val list option \<Rightarrow> stream option result" where
  "createStateStream name type initialState sources =
     (if typeof name \<noteq> ''string'' \<or> \<not> truthy name
      then Throw (Error ''Expected the name to be a not none string.'')
      else if \<not> truthy type \<or> typeof type \<noteq> ''string''
              \<or> find (\<lambda>streamType. Str streamType = type) [SOURCE, RELAY] = None
      then Throw (Error ''Expected the type to be one of [SOURCE, RELAY].'')
      else
        let streamType = (case type of Str t \<Rightarrow> toUpperCase t | _ \<Rightarrow> [])
        in if streamType = SOURCE then Return (Some (SourceStream (createSource name initialState)))
           else if streamType = RELAY
           then (case createRelay name (case sources of None \<Rightarrow> [] | Some xs \<Rightarrow> xs) of
                   Throw e \<Rightarrow> Throw e
                 | Return r \<Rightarrow> Return (Some (RelayStream r)))
           else Return None)"

definition createSourceStateStream :: "val \<Rightarrow> val \<Rightarrow> stream option result" where
  "createSourceStateStream name initialState =
     createStateStream name (Str SOURCE) initialState (Some [])"

definition createRelayStateStream :: "val \<Rightarrow> val list option \<Rightarrow> stream option result" where
  "createRelayStateStream name sources =
     createStateStream name (Str RELAY) Null sources"

section \<open>Runs of a source stream\<close>

text \<open>
  What can happen to a source stream after its creation: a handler is registered, a
  dispatcher is called, the sequence returned by an earlier call of handler \<open>g\<close> emits
  \<open>u\<close> (only a registered handler is ever called), somebody subscribes to \<^verbatim>\<open>state$\<close> or to
  a reply sequence. A \<^verbatim>\<open>createEvent\<close> that throws leaves the stream as it was.
\<close>

datatype action =
    Register val
  | Call dispatcher "val list"
  | Emit ref val
  | SubscribeState ref
  | SubscribeReply reply ref

fun step :: "fenv \<Rightarrow> source \<Rightarrow> action \<Rightarrow> source" where
  "step env st (Register fn) =
     (case createEvent fn st of Throw e \<Rightarrow> st | Return (d, st') \<Rightarrow> st')"
| "step env st (Call d params) = snd (call_dispatcher env d params st)"
| "step env st (Emit g u) = (if g \<in> set (observers st) then handler_next env g u st else st)"
| "step env st (SubscribeState k) = subscribe_state k st"
| "step env st (SubscribeReply rp k) = subscribe_reply rp k st"

definition run :: "fenv \<Rightarrow> source \<Rightarrow> action list \<Rightarrow> source" where
  "run env st as = foldl (step env) st as"

text \<open>Every registered handler carries a reply subject.\<close>

definition registry_ok :: "source \<Rightarrow> bool" where
  "registry_ok st = list_all (\<lambda>g. map_of (subjectOf st) g \<noteq> None) (observers st)"

text \<open>The state an update resolves to (lines 74--78).\<close>

definition next_state :: "fenv \<Rightarrow> val \<Rightarrow> source \<Rightarrow> val" where
  "next_state env u st = (case u of Fun h \<Rightarrow> call_updater env h (stateValue st) | _ \<Rightarrow> u)"

section \<open>Notions used to state the properties\<close>

text \<open>
  An entry of \<^verbatim>\<open>sources\<close> that passes the test of line 129: an object on which \<^verbatim>\<open>name\<close>,
  \<^verbatim>\<open>state$\<close> and \<^verbatim>\<open>type\<close> are present.
\<close>

definition is_StateStream :: "val \<Rightarrow> bool" where
  "is_StateStream source =
     (typeof source = ''object'' \<and> source \<noteq> Null \<and> truthy (get source ''name'')
      \<and> truthy (get source ''state$'') \<and> truthy (get source ''type''))"

text \<open>The name of an entry is a string, as the interface declares, or is missing.\<close>

definition string_named :: "val \<Rightarrow> bool" where
  "string_named source = (case get source ''name'' of Str n \<Rightarrow> True | v \<Rightarrow> \<not> truthy v)"


definition source_names :: "val list \<Rightarrow> string list" where
  "source_names sources = map (\<lambda>source. prop_key (get source ''name'')) sources"

text \<open>The latest values after the inputs \<open>ins\<close>, slot by slot.\<close>

definition feed :: "val option list \<Rightarrow> (nat \<times> val) list \<Rightarrow> val option list" where
  "feed vals ins = foldl (\<lambda>vs (i, v). vs[i := Some v]) vals ins"

fun nonempty_string :: "val \<Rightarrow> bool" where
  "nonempty_string (Str s) = (s \<noteq> [])"
| "nonempty_string v = False"

text \<open>Neither of the two guards of \<^verbatim>\<open>createStateStream\<close> (lines 166 and 170--173) fires.\<close>

definition validation_passes :: "val \<Rightarrow> val \<Rightarrow> bool" where
  "validation_passes name type =
     (\<not> (typeof name \<noteq> ''string'' \<or> \<not> truthy name)
      \<and> \<not> (\<not> truthy type \<or> typeof type \<noteq> ''string''
             \<or> find (\<lambda>streamType. Str streamType = type) [SOURCE, RELAY] = None))"

definition the_sources :: "val list option \<Rightarrow> val list" where
  "the_sources sources = (case sources of None \<Rightarrow> [] | Some xs \<Rightarrow> xs)"

section \<open>Example data\<close>

text \<open>
  A stream object as the constructors return it, with the properties \<^verbatim>\<open>createRelay\<close>
  reads; \<open>state\<close> is the reference of its \<^verbatim>\<open>state$\<close>.
\<close>

definition stream_object :: "string \<Rightarrow> string \<Rightarrow> ref \<Rightarrow> val" where
  "stream_object name type state =
     Obj [(''name'', Str name), (''state$'', Observable state), (''type'', Str type)]"


text \<open>
  Handler \<open>0\<close> returns a sequence that emits the updater \<^verbatim>\<open>prev => prev + 1\<close> (function
  \<open>1\<close>, here on numbers) at once; every other handler returns a sequence that emits
  later or never. Observer \<open>0\<close> is \<^verbatim>\<open>state$ => state$\<close>; the other observers return
  \<^verbatim>\<open>undefined\<close>.
\<close>

definition example_env :: fenv where
  "example_env =
     \<lparr>handler_emits = (\<lambda>g snapshot params. if g = 0 then [Fun 1] else []),
      call_updater = (\<lambda>g prev. case prev of Num n \<Rightarrow> Num (n + 1) | _ \<Rightarrow> prev),
      call_observer = (\<lambda>g state. if g = 0 then state else Undefined)\<rparr>"

text \<open>A counter at \<open>5\<close> with one registered handler and one subscriber of \<^verbatim>\<open>state$\<close>.\<close>

definition counter :: source where
  "counter = run example_env (createSource (Str ''counter'') (Num 5))
               [Register (Fun 0), SubscribeState 7]"

text \<open>A stream on which the same function \<open>2\<close> was registered twice.\<close>

definition twice :: source where
  "twice = run example_env (createSource (Str ''s'') (Num 0)) [Register (Fun 2), Register (Fun 2)]"

text \<open>
  Two calls of the dispatcher of handler \<open>2\<close> (whose reply subject is \<open>0\<close>), each followed
  by a subscription to the sequence it returned, before the handler has emitted anything.
\<close>

definition racing :: "action list" where
  "racing = [Call (2, 0) [Str ''first''], SubscribeReply (First 0) 11,
             Call (2, 0) [Str ''second''], SubscribeReply (First 0) 12]"

section \<open>Own properties: auxiliary facts\<close>

lemma keys_simps:
  "keys [] = []" "keys ((k, v) # ps) = k # keys ps" "keys (ps @ qs) = keys ps @ keys qs"
  by (simp_all add: keys_def)

lemma insert_index_keys: "set (keys (insert_index k v ps)) = insert k (set (keys ps))"
  by (induction ps) (auto simp: keys_simps split: if_splits)

lemma insert_index_distinct:
  "k \<notin> set (keys ps) \<Longrightarrow> distinct (keys ps) \<Longrightarrow> distinct (keys (insert_index k v ps))"
  by (induction ps) (auto simp: keys_simps insert_index_keys)

lemma insert_index_map_of:
  "k \<notin> set (keys ps) \<Longrightarrow> map_of (insert_index k v ps) = (map_of ps)(k \<mapsto> v)"
  by (induction ps) (auto simp: keys_simps fun_upd_twist)

lemma replace_keys: "keys (map (\<lambda>(k', v'). if k' = k then (k', v) else (k', v')) ps) = keys ps"
  by (induction ps) (auto simp: keys_simps)

lemma replace_map_of:
  "map_of (map (\<lambda>(k', v'). if k' = k then (k', v) else (k', v')) ps) x =
     (if x = k \<and> k \<in> set (keys ps) then Some v else map_of ps x)"
  by (induction ps) (auto simp: keys_simps)

lemma obj_set_keys:
  "k \<noteq> ''__proto__'' \<Longrightarrow> set (keys (obj_set k v ps)) = insert k (set (keys ps))"
proof -
  assume "k \<noteq> ''__proto__''"
  moreover have "k \<in> set (keys ps) \<Longrightarrow> insert k (set (keys ps)) = set (keys ps)" by auto
  ultimately show ?thesis
    by (simp add: obj_set_def insert_index_keys replace_keys keys_simps flip: keys_def)
qed

lemma obj_set_distinct: "distinct (keys ps) \<Longrightarrow> distinct (keys (obj_set k v ps))"
  by (simp add: obj_set_def insert_index_distinct replace_keys keys_simps flip: keys_def)

lemma obj_set_map_of:
  "k \<noteq> ''__proto__'' \<Longrightarrow> map_of (obj_set k v ps) = (map_of ps)(k \<mapsto> v)"
proof
  fix x
  assume k: "k \<noteq> ''__proto__''"
  have "k \<notin> set (keys ps) \<Longrightarrow> map_of ps k = None"
    by (simp add: keys_def map_of_eq_None_iff)
  then show "map_of (obj_set k v ps) x = ((map_of ps)(k \<mapsto> v)) x"
    using k by (auto simp add: obj_set_def insert_index_map_of replace_map_of map_add_def
                 simp flip: keys_def split: option.splits)
qed

lemma obj_set_append:
  "k \<noteq> ''__proto__'' \<Longrightarrow> \<not> is_array_index k \<Longrightarrow> k \<notin> set (keys ps) \<Longrightarrow>
   keys (obj_set k v ps) = keys ps @ [k]"
  by (simp add: obj_set_def keys_def)

lemma obj_set_proto: "obj_set ''__proto__'' v ps = ps"
  by (simp add: obj_set_def)

section \<open>The relay: auxiliary facts\<close>

lemma check_sources_ok:
  "list_all is_StateStream sources \<Longrightarrow>
   check_sources sources acc = Return (foldl (\<lambda>a k. obj_set k (Num 1) a) acc (source_names sources))"
  by (induction sources arbitrary: acc) (auto simp: is_StateStream_def source_names_def)

lemma check_sources_bad:
  "\<not> list_all is_StateStream sources \<Longrightarrow> is_Throw (check_sources sources acc)"
  by (induction sources arbitrary: acc) (auto simp: is_StateStream_def)

lemma add_names_keys:
  "distinct (keys acc) \<Longrightarrow>
   distinct (keys (foldl (\<lambda>a k. obj_set k v a) acc ks)) \<and>
   set (keys (foldl (\<lambda>a k. obj_set k v a) acc ks)) = set (keys acc) \<union> (set ks - {''__proto__''})"
proof (induction ks arbitrary: acc)
  case Nil
  then show ?case by simp
next
  case (Cons k ks)
  have d: "distinct (keys (obj_set k v acc))" using Cons.prems by (rule obj_set_distinct)
  show ?case
  proof (cases "k = ''__proto__''")
    case True
    then show ?thesis using Cons.IH [OF Cons.prems] by (auto simp: obj_set_proto)
  next
    case False
    then show ?thesis using Cons.IH [OF d] by (auto simp: obj_set_keys)
  qed
qed

lemma length_keys_eq:
  assumes "distinct ks'" and "set ks' = set ks - {p}"
  shows "length ks' = length ks \<longleftrightarrow> distinct ks \<and> p \<notin> set ks"
proof -
  have l: "length ks' = card (set ks - {p})" using assms by (metis distinct_card)
  have c: "card (set ks - {p}) \<le> card (set ks)" by (simp add: card_mono)
  have c2: "card (set ks) \<le> length ks" by (rule card_length)
  show ?thesis
  proof
    assume e: "length ks' = length ks"
    then have "card (set ks) = length ks" and e2: "card (set ks - {p}) = card (set ks)"
      using l c c2 by linarith+
    then have "distinct ks" by (simp add: card_distinct)
    moreover have "p \<notin> set ks"
    proof
      assume "p \<in> set ks"
      then have "card (set ks - {p}) < card (set ks)"
        by (metis card_Diff1_less List.finite_set)
      then show False using e2 by simp
    qed
    ultimately show "distinct ks \<and> p \<notin> set ks" by simp
  next
    assume "distinct ks \<and> p \<notin> set ks"
    then show "length ks' = length ks" using l by (simp add: distinct_card)
  qed
qed

lemma createRelay_Throw_iff:
  "is_Throw (createRelay name sources) \<longleftrightarrow>
     sources = [] \<or> \<not> list_all is_StateStream sources
     \<or> \<not> distinct (source_names sources) \<or> ''__proto__'' \<in> set (source_names sources)"
proof (cases "sources = [] \<or> \<not> list_all is_StateStream sources")
  case True
  then show ?thesis
    using check_sources_bad [of sources "[]"]
    by (cases "check_sources sources []") (auto simp: createRelay_def)
next
  case False
  then have ok: "list_all is_StateStream sources" and ne: "sources \<noteq> []" by simp_all
  let ?r = "foldl (\<lambda>a k. obj_set k (Num 1) a) [] (source_names sources)"
  have k: "distinct (keys ?r)" "set (keys ?r) = set (source_names sources) - {''__proto__''}"
    using add_names_keys [of "[]" "Num 1" "source_names sources"] by (simp_all add: keys_simps)
  have "length (keys ?r) = length (source_names sources) \<longleftrightarrow>
        distinct (source_names sources) \<and> ''__proto__'' \<notin> set (source_names sources)"
    using k by (rule length_keys_eq)
  moreover have "length (source_names sources) = length sources" by (simp add: source_names_def)
  ultimately show ?thesis
    using ok ne by (auto simp: createRelay_def check_sources_ok)
qed

lemma createRelay_Return:
  "createRelay name sources = Return r \<Longrightarrow>
     r = \<lparr>relay_name = name, relay_type = RELAY, relay_sources = sources\<rparr>"
  by (auto simp: createRelay_def split: if_splits result.splits)

lemma source_names_simps:
  "source_names [] = []"
  "source_names (s # rest) = prop_key (get s ''name'') # source_names rest"
  by (simp_all add: source_names_def)

lemma assign_states_keys:
  "distinct (keys state) \<Longrightarrow>
   distinct (keys (assign_states sources states state)) \<and>
   set (keys (assign_states sources states state)) =
     set (keys state) \<union> (set (source_names sources) - {''__proto__''})"
proof (induction sources arbitrary: states state)
  case Nil
  then show ?case by (simp add: source_names_simps)
next
  case (Cons s rest)
  let ?k = "prop_key (get s ''name'')"
  let ?v = "case states of [] \<Rightarrow> Undefined | x # _ \<Rightarrow> x"
  have d: "distinct (keys (obj_set ?k ?v state))" using Cons.prems by (rule obj_set_distinct)
  show ?case
  proof (cases "?k = ''__proto__''")
    case True
    then show ?thesis
      using Cons.IH [OF Cons.prems, of "tl states"] by (auto simp: obj_set_proto source_names_simps)
  next
    case False
    then show ?thesis
      using Cons.IH [OF d, of "tl states"] by (auto simp: obj_set_keys source_names_simps)
  qed
qed

lemma assign_states_other:
  "x \<notin> set (source_names sources) \<Longrightarrow>
   map_of (assign_states sources states state) x = map_of state x"
proof (induction sources arbitrary: states state)
  case Nil
  then show ?case by simp
next
  case (Cons s rest)
  let ?k = "prop_key (get s ''name'')"
  have x: "x \<noteq> ?k" "x \<notin> set (source_names rest)"
    using Cons.prems by (auto simp: source_names_simps)
  have "map_of (obj_set ?k v state) x = map_of state x" for v
    using x(1) by (cases "?k = ''__proto__''") (simp_all add: obj_set_proto obj_set_map_of)
  then show ?case using Cons.IH [OF x(2)] by simp
qed

lemma assign_states_nth:
  "distinct (source_names sources) \<Longrightarrow> ''__proto__'' \<notin> set (source_names sources) \<Longrightarrow>
   length states = length sources \<Longrightarrow> j < length sources \<Longrightarrow>
   map_of (assign_states sources states state) (source_names sources ! j) = Some (states ! j)"
proof (induction sources arbitrary: states state j)
  case Nil
  then show ?case by simp
next
  case (Cons s rest)
  let ?k = "prop_key (get s ''name'')"
  obtain x xs where st: "states = x # xs" using Cons.prems(3) by (cases states) auto
  have k: "?k \<noteq> ''__proto__''" "?k \<notin> set (source_names rest)"
    and r: "distinct (source_names rest)" "''__proto__'' \<notin> set (source_names rest)"
           "length xs = length rest"
    using Cons.prems st by (auto simp: source_names_simps)
  show ?case
  proof (cases j)
    case 0
    then show ?thesis
      using k by (simp add: st source_names_simps assign_states_other obj_set_map_of)
  next
    case (Suc j')
    then have "j' < length rest" using Cons.prems(4) by simp
    then show ?thesis
      using Cons.IH [OF r, of j'] by (simp add: st Suc source_names_simps)
  qed
qed

lemma assign_states_order:
  "distinct (source_names sources) \<Longrightarrow> ''__proto__'' \<notin> set (source_names sources) \<Longrightarrow>
   \<not> list_ex is_array_index (source_names sources) \<Longrightarrow>
   set (source_names sources) \<inter> set (keys state) = {} \<Longrightarrow>
   keys (assign_states sources states state) = keys state @ source_names sources"
proof (induction sources arbitrary: states state)
  case Nil
  then show ?case by (simp add: source_names_simps)
next
  case (Cons s rest)
  let ?k = "prop_key (get s ''name'')"
  let ?v = "case states of [] \<Rightarrow> Undefined | x # _ \<Rightarrow> x"
  have k: "?k \<noteq> ''__proto__''" "\<not> is_array_index ?k" "?k \<notin> set (keys state)"
          "?k \<notin> set (source_names rest)"
    using Cons.prems by (auto simp: source_names_simps)
  have a: "keys (obj_set ?k ?v state) = keys state @ [?k]"
    using k by (simp add: obj_set_append)
  have "set (source_names rest) \<inter> set (keys (obj_set ?k ?v state)) = {}"
    using Cons.prems(4) k(4) by (auto simp: a source_names_simps)
  then have "keys (assign_states rest (tl states) (obj_set ?k ?v state))
               = keys (obj_set ?k ?v state) @ source_names rest"
    using Cons.prems by (intro Cons.IH) (auto simp: source_names_simps)
  then show ?case by (simp add: a source_names_simps)
qed

lemma relay_run_append:
  "relay_run r (xs @ ys) vals = relay_run r xs vals @ relay_run r ys (feed vals xs)"
  by (induction xs arbitrary: vals)
     (auto simp: feed_def combineLatest_next_def Let_def split: option.splits prod.splits)

lemma feed_length: "length (feed vals ins) = length vals"
  by (induction ins arbitrary: vals) (auto simp: feed_def)

lemma feed_nth:
  "j < length vals \<Longrightarrow>
   feed vals ins ! j = (case latest ins j of None \<Rightarrow> vals ! j | Some v \<Rightarrow> Some v)"
proof (induction ins arbitrary: vals)
  case Nil
  then show ?case by (simp add: feed_def latest_def)
next
  case (Cons p ins)
  obtain i v where p: "p = (i, v)" by (cases p)
  have "feed vals (p # ins) = feed (vals[i := Some v]) ins" by (simp add: feed_def p)
  moreover have "latest (p # ins) j = (case latest ins j of None \<Rightarrow> (if i = j then Some v else None) | Some w \<Rightarrow> Some w)"
    by (auto simp: latest_def p map_add_def split: option.splits)
  ultimately show ?case using Cons.IH [of "vals[i := Some v]"] Cons.prems
    by (auto split: option.splits)
qed

lemma feed_replicate:
  "feed (replicate n None) ins = map (latest ins) [0..<n]"
  by (rule nth_equalityI) (simp_all add: feed_length feed_nth split: option.splits)

lemma string_named_key:
  "is_StateStream source \<Longrightarrow> string_named source \<Longrightarrow>
   Str (prop_key (get source ''name'')) = get source ''name''"
  by (cases "get source ''name''") (auto simp: is_StateStream_def string_named_def)

lemma relay_run_single:
  "relay_run r [(i, v)] vals =
     (if list_all (\<lambda>x. x \<noteq> None) (feed vals [(i, v)])
      then [project (relay_sources r) (map the (feed vals [(i, v)]))] else [])"
  by (simp add: combineLatest_next_def feed_def Let_def)

lemma feed_append: "feed (feed vals xs) ys = feed vals (xs @ ys)"
  by (simp add: feed_def)

lemma relay_state_step:
  "relay_state r (ins @ [(i, v)]) =
     relay_state r ins @
     (if list_all (\<lambda>j. latest (ins @ [(i, v)]) j \<noteq> None) [0..<length (relay_sources r)]
      then [project (relay_sources r)
              (map (\<lambda>j. the (latest (ins @ [(i, v)]) j)) [0..<length (relay_sources r)])]
      else [])"
proof -
  let ?n = "length (relay_sources r)"
  let ?vals = "feed (replicate ?n None) (ins @ [(i, v)])"
  have "relay_state r (ins @ [(i, v)]) =
          relay_state r ins @ relay_run r [(i, v)] (feed (replicate ?n None) ins)"
    by (simp only: relay_state_def relay_run_append)
  also have "relay_run r [(i, v)] (feed (replicate ?n None) ins) =
          (if list_all (\<lambda>x. x \<noteq> None) ?vals then [project (relay_sources r) (map the ?vals)] else [])"
    by (simp only: relay_run_single feed_append)
  also have "?vals = map (latest (ins @ [(i, v)])) [0..<?n]"
    by (rule feed_replicate)
  finally show ?thesis
    by (simp only: list.pred_map list.map_comp comp_def)
qed

lemma project_snapshot:
  assumes "list_all is_StateStream sources" and "distinct (source_names sources)"
    and "''__proto__'' \<notin> set (source_names sources)" and "length states = length sources"
  shows "\<exists>ps. project sources states = Obj ps \<and> length ps = length sources
          \<and> set (keys ps) = set (source_names sources)
          \<and> (\<forall>j<length sources. map_of ps (source_names sources ! j) = Some (states ! j))
          \<and> (\<not> list_ex is_array_index (source_names sources) \<longrightarrow> keys ps = source_names sources)"
proof -
  let ?ps = "assign_states sources states []"
  have k: "distinct (keys ?ps)" "set (keys ?ps) = set (source_names sources)"
    using assign_states_keys [of "[]" sources states] assms(3) by (auto simp: keys_simps)
  have "length (keys ?ps) = length (source_names sources)"
    using k assms(2) by (metis distinct_card)
  then have l: "length ?ps = length sources" by (simp add: keys_def source_names_def)
  have n: "\<forall>j<length sources. map_of ?ps (source_names sources ! j) = Some (states ! j)"
    using assms by (simp add: assign_states_nth)
  have o: "\<not> list_ex is_array_index (source_names sources) \<longrightarrow> keys ?ps = source_names sources"
    using assign_states_order [of sources "[]" states] assms by (simp add: keys_simps)
  show ?thesis using k l n o by (simp add: project_def)
qed

section \<open>The source stream: auxiliary facts\<close>

lemma handler_next_registry:
  "observers (handler_next env g u st) = observers st"
  "subjectOf (handler_next env g u st) = subjectOf st"
  by (simp_all add: handler_next_def on_event_def map_project_def Let_def stateSubject_next_def
        subject_next_def split: option.splits)

lemma foldl_handler_next_registry:
  "observers (foldl (\<lambda>s u. handler_next env g u s) st us) = observers st \<and>
   subjectOf (foldl (\<lambda>s u. handler_next env g u s) st us) = subjectOf st"
  by (induction us arbitrary: st) (simp_all add: handler_next_registry)

lemma dispatch_registry:
  "observers (dispatch env ev st) = observers st"
  "subjectOf (dispatch env ev st) = subjectOf st"
  by (simp_all add: dispatch_def foldl_handler_next_registry split: option.splits)

lemma step_subjectOf:
  "a \<noteq> Register (Fun g) \<Longrightarrow> map_of (subjectOf (step env st a)) g = map_of (subjectOf st) g"
proof (cases a)
  case (Register fn)
  assume "a \<noteq> Register (Fun g)"
  then show ?thesis using Register by (cases fn) (auto simp: createEvent_def Let_def)
next
  case (SubscribeReply rp k)
  then show ?thesis by (cases rp) simp
qed (simp_all add: call_dispatcher_def dispatch_registry handler_next_registry subscribe_state_def)

lemma run_subjectOf:
  "list_all (\<lambda>a. a \<noteq> Register (Fun g)) as \<Longrightarrow>
   map_of (subjectOf (run env st as)) g = map_of (subjectOf st) g"
  unfolding run_def by (induction as arbitrary: st) (simp_all add: step_subjectOf)

lemma step_registry_ok: "registry_ok st \<Longrightarrow> registry_ok (step env st a)"
proof (cases a)
  case (Register fn)
  assume "registry_ok st"
  then show ?thesis using Register
    by (cases fn) (auto simp: createEvent_def Let_def registry_ok_def list_all_iff)
next
  case (SubscribeReply rp k)
  assume "registry_ok st"
  then show ?thesis using SubscribeReply by (cases rp) (simp add: registry_ok_def)
qed (simp_all add: registry_ok_def call_dispatcher_def dispatch_registry handler_next_registry
       subscribe_state_def)

lemma run_registry_ok: "registry_ok st \<Longrightarrow> registry_ok (run env st as)"
  unfolding run_def by (induction as arbitrary: st) (simp_all add: step_registry_ok)

lemma createSource_registry_ok: "registry_ok (createSource name initialState)"
  by (simp add: registry_ok_def createSource_def)

lemma handler_next_effect:
  assumes "u \<noteq> Undefined" and "map_of (subjectOf st) g = Some s"
  shows "stateValue (handler_next env g u st) = next_state env u st"
    and "received (handler_next env g u st) =
           received st @ map (\<lambda>k. (k, next_state env u st)) (stateObservers st)"
    and "pushed (handler_next env g u st) =
           pushed st @ [(s, Obj [(''state'', next_state env u st)])]"
    and "replies (handler_next env g u st) =
           replies st @ map (\<lambda>(s', k). (k, Obj [(''state'', next_state env u st)]))
                          (filter (\<lambda>(s', k). s' = s) (waiting st))"
  using assms
  by (simp_all add: handler_next_def on_event_def map_project_def Let_def stateSubject_next_def
        subject_next_def next_state_def)

lemma waiting_handler_next:
  "u \<noteq> Undefined \<Longrightarrow> map_of (subjectOf st) g = Some s \<Longrightarrow>
   waiting (handler_next env g u st) = filter (\<lambda>(s', k). s' \<noteq> s) (waiting st)"
  by (simp add: handler_next_def on_event_def map_project_def Let_def stateSubject_next_def
        subject_next_def)

lemma find_registered:
  "g \<in> set xs \<Longrightarrow> find (\<lambda>observer. Fun observer = Fun g) xs = Some g"
  by (induction xs) auto

section \<open>The factory: auxiliary facts\<close>

lemma find_stream_type:
  "find (\<lambda>streamType. Str streamType = type) [SOURCE, RELAY] = None
     \<longleftrightarrow> type \<noteq> Str ''SOURCE'' \<and> type \<noteq> Str ''RELAY''"
  by (auto simp: SOURCE_def RELAY_def)

lemma toUpperCase_constants:
  "toUpperCase ''SOURCE'' = ''SOURCE''" "toUpperCase ''RELAY'' = ''RELAY''"
  "toUpperCase ''source'' = ''SOURCE''"
  by (simp_all add: toUpperCase_def upper_char_def)

lemma valid_name_iff: "typeof name = ''string'' \<and> truthy name \<longleftrightarrow> nonempty_string name"
  by (cases name) simp_all

lemma createStateStream_eq:
  "createStateStream name type initialState sources =
     (if \<not> nonempty_string name
      then Throw (Error ''Expected the name to be a not none string.'')
      else if type = Str ''SOURCE''
      then Return (Some (SourceStream (createSource name initialState)))
      else if type = Str ''RELAY''
      then (case createRelay name (the_sources sources) of
              Throw e \<Rightarrow> Throw e
            | Return r \<Rightarrow> Return (Some (RelayStream r)))
      else Throw (Error ''Expected the type to be one of [SOURCE, RELAY].''))"
proof (cases "nonempty_string name")
  case False
  then show ?thesis
    using valid_name_iff [of name] by (auto simp: createStateStream_def)
next
  case True
  then have n: "typeof name = ''string''" "truthy name"
    using valid_name_iff [of name] by simp_all
  consider "type = Str ''SOURCE''" | "type = Str ''RELAY''"
    | "type \<noteq> Str ''SOURCE''" "type \<noteq> Str ''RELAY''" by blast
  then show ?thesis
  proof cases
    case 1
    then show ?thesis
      using True n by (simp add: createStateStream_def SOURCE_def RELAY_def toUpperCase_constants)
  next
    case 2
    then show ?thesis
      using True n
      by (simp add: createStateStream_def SOURCE_def RELAY_def toUpperCase_constants the_sources_def)
  next
    case 3
    then have "find (\<lambda>streamType. Str streamType = type) [SOURCE, RELAY] = None"
      using find_stream_type [of type] by blast
    then show ?thesis using True n 3 by (simp add: createStateStream_def)
  qed
qed

lemma validation_passes_iff:
  "validation_passes name type \<longleftrightarrow>
     nonempty_string name \<and> (type = Str ''SOURCE'' \<or> type = Str ''RELAY'')"
proof -
  have "type = Str ''SOURCE'' \<or> type = Str ''RELAY'' \<Longrightarrow> truthy type \<and> typeof type = ''string''"
    by auto
  then show ?thesis
    unfolding validation_passes_def find_stream_type using valid_name_iff [of name] by blast
qed



lemma check_sources_errors:
  "check_sources sources acc = Throw e \<Longrightarrow>
   e = Error ''Expected the source to be type of StateStream.'' \<or> e = TypeError"
  by (induction sources arbitrary: acc) (auto split: if_splits)

lemma createRelay_errors:
  "createRelay name sources = Throw e \<Longrightarrow>
   e = Error ''Expected the sources to be passed.''
   \<or> e = Error ''Expected the source to be type of StateStream.''
   \<or> e = TypeError
   \<or> e = Error ''Sources' name should be unique.''"
  by (auto simp: createRelay_def split: if_splits result.splits dest: check_sources_errors)

lemma createRelayStateStream_eq:
  "createRelayStateStream name sources =
     (if \<not> nonempty_string name
      then Throw (Error ''Expected the name to be a not none string.'')
      else case createRelay name (the_sources sources) of
             Throw e \<Rightarrow> Throw e
           | Return r \<Rightarrow> Return (Some (RelayStream r)))"
  by (simp add: createRelayStateStream_def createStateStream_eq RELAY_def)



lemma createEvent_Return:
  "createEvent (Fun g) st = Return (d, st1) \<Longrightarrow>
     d = (g, nextSubject st) \<and> map_of (subjectOf st1) g = Some (snd d) \<and> g \<in> set (observers st1)"
  by (auto simp: createEvent_def Let_def)

text \<open>Unfolding the definitions on concrete data.\<close>

lemmas source_defs = run_def createSource_def createEvent_def call_dispatcher_def dispatch_def
  handler_next_def on_event_def map_project_def stateSubject_next_def subject_next_def
  subscribe_state_def next_state_def example_env_def Let_def SOURCE_def

lemmas relay_defs = createRelay_def stream_object_def obj_set_def is_array_index_def str_nat_def
  keys_def RELAY_def SOURCE_def string_named_def source_names_def project_def relay_state_def
  combineLatest_next_def latest_def

section \<open>Properties\<close>

text \<open>
  C1. While a source stream runs, when the sequence returned by a registered handler
  emits an update \<open>u\<close> other than \<^verbatim>\<open>undefined\<close>, the dispatch loop commits \<open>u\<close> itself if
  \<open>u\<close> is not a function and \<open>u(current state)\<close> if it is, the current state being read
  when the update is applied; every subscriber of \<^verbatim>\<open>state$\<close> is delivered the committed
  state, and \<^verbatim>\<open>{state: nextState}\<close> is pushed into the reply subject of that handler. A
  dispatch whose handler emits exactly \<open>u\<close> synchronously does precisely this.
\<close>

theorem dispatch_commits_update:
  assumes "st = run env (createSource name initialState) as"
    and "g \<in> set (observers st)" and "u \<noteq> Undefined"
  shows "\<exists>s. map_of (subjectOf st) g = Some s
           \<and> stateValue (handler_next env g u st) = next_state env u st
           \<and> received (handler_next env g u st) =
               received st @ map (\<lambda>k. (k, next_state env u st)) (stateObservers st)
           \<and> pushed (handler_next env g u st) =
               pushed st @ [(s, Obj [(''state'', next_state env u st)])]
           \<and> (handler_emits env g (Obj [(''state'', stateValue st)]) params = [u] \<longrightarrow>
                dispatch env \<lparr>event_type = Fun g, event_params = params\<rparr> st = handler_next env g u st)"
proof -
  have "registry_ok st"
    unfolding assms(1) by (rule run_registry_ok) (rule createSource_registry_ok)
  then obtain s where s: "map_of (subjectOf st) g = Some s"
    using assms(2) by (auto simp: registry_ok_def list_all_iff)
  have "find (\<lambda>observer. Fun observer = Fun g) (observers st) = Some g"
    using assms(2) by (rule find_registered)
  then have d: "handler_emits env g (Obj [(''state'', stateValue st)]) params = [u] \<longrightarrow>
      dispatch env \<lparr>event_type = Fun g, event_params = params\<rparr> st = handler_next env g u st"
    by (simp add: dispatch_def)
  show ?thesis
    using handler_next_effect [OF assms(3) s, of env] d s by blast
qed

text \<open>
  The test of the specification: the counter stands at \<open>5\<close>, the handler emits the
  updater \<^verbatim>\<open>prev => prev + 1\<close>, and \<open>6\<close> is committed, delivered and replied.
\<close>

theorem dispatch_commits_update_witness:
  "stateValue (handler_next example_env 0 (Fun 1) counter) = Num 6
   \<and> received (handler_next example_env 0 (Fun 1) counter) = [(7, Num 5), (7, Num 6)]
   \<and> pushed (handler_next example_env 0 (Fun 1) counter) = [(0, Obj [(''state'', Num 6)])]
   \<and> dispatch example_env \<lparr>event_type = Fun 0, event_params = []\<rparr> counter
        = handler_next example_env 0 (Fun 1) counter"
  using dispatch_commits_update [of counter example_env "Str ''counter''" "Num 5"
      "[Register (Fun 0), SubscribeState 7]" 0 "Fun 1" "[]"]
  by (simp add: counter_def source_defs)

text \<open>
  C2. When the sequence returned by a handler emits \<^verbatim>\<open>undefined\<close>, the emission is skipped:
  the stream is left exactly as it was, so the State Cell keeps its value, no subscriber
  of \<^verbatim>\<open>state$\<close> is delivered anything and nothing is pushed into a reply subject.
\<close>

theorem undefined_update_skipped:
  "handler_next env g Undefined st = st
   \<and> stateValue (handler_next env g Undefined st) = stateValue st
   \<and> received (handler_next env g Undefined st) = received st
   \<and> pushed (handler_next env g Undefined st) = pushed st
   \<and> replies (handler_next env g Undefined st) = replies st"
  by (simp add: handler_next_def on_event_def map_project_def)

theorem undefined_update_skipped_witness:
  "handler_next example_env 0 Undefined counter = counter
   \<and> stateValue (handler_next example_env 0 Undefined counter) = Num 5
   \<and> received (handler_next example_env 0 Undefined counter) = [(7, Num 5)]
   \<and> pushed (handler_next example_env 0 Undefined counter) = []"
  using undefined_update_skipped [of example_env 0 counter]
  by (simp add: counter_def source_defs)

text \<open>
  C3. An Event Message whose handler is not in the registry is dropped by the dispatch
  loop: the stream is left exactly as it was (no state change, no reply), and the loop
  has no other outcome, so nothing is thrown.
\<close>

theorem unregistered_event_dropped:
  assumes "event_type ev \<notin> Fun ` set (observers st)"
  shows "dispatch env ev st = st"
proof -
  have "\<not> (\<exists>x. x \<in> set (observers st) \<and> Fun x = event_type ev)"
    using assms by (metis imageI)
  then have "find (\<lambda>observer. Fun observer = event_type ev) (observers st) = None"
    by (simp add: find_None_iff)
  then show ?thesis by (simp add: dispatch_def)
qed

theorem unregistered_event_dropped_witness:
  "dispatch example_env \<lparr>event_type = Fun 3, event_params = [Num 1]\<rparr> counter = counter
   \<and> observers counter = [0]"
  using unregistered_event_dropped [of "\<lparr>event_type = Fun 3, event_params = [Num 1]\<rparr>" counter example_env]
  by (simp add: counter_def source_defs)

text \<open>
  C4. Whatever \<open>initialState\<close> is, \<^verbatim>\<open>undefined\<close> included, the first subscriber of the
  \<^verbatim>\<open>state$\<close> of a freshly created source stream is delivered exactly \<open>initialState\<close>, at
  the moment it subscribes; \<^verbatim>\<open>createSourceStateStream\<close> with a non-empty name returns
  that fresh stream.
\<close>

theorem initial_state_replayed:
  "received (subscribe_state k (createSource name initialState)) = [(k, initialState)]
   \<and> createSourceStateStream (Str (c # cs)) initialState
       = Return (Some (SourceStream (createSource (Str (c # cs)) initialState)))"
  by (simp add: subscribe_state_def createSource_def createSourceStateStream_def
        createStateStream_def SOURCE_def RELAY_def toUpperCase_def upper_char_def)

theorem initial_state_replayed_witness:
  "received (subscribe_state 7 (createSource (Str ''s'') Undefined)) = [(7, Undefined)]"
  using initial_state_replayed [of 7 "Str ''s''" Undefined] by simp

text \<open>
  C5, as amended. For a relay that \<^verbatim>\<open>createRelay\<close> has built over sources with string
  names: a subscriber of its \<^verbatim>\<open>state$\<close> receives a snapshot at an emission of an input
  exactly when every input has emitted by then, and that snapshot is built from the
  latest values; a snapshot is an object with one key per source, each source's name
  mapped to its state; and the keys are in the order of the sources provided that no
  name is a canonical array index.
\<close>

theorem relay_state_snapshot:
  assumes "createRelay name sources = Return r" and "list_all string_named sources"
  shows "relay_state r (ins @ [(i, v)]) =
           relay_state r ins @
           (if list_all (\<lambda>j. latest (ins @ [(i, v)]) j \<noteq> None) [0..<length sources]
            then [project sources (map (\<lambda>j. the (latest (ins @ [(i, v)]) j)) [0..<length sources])]
            else [])
       \<and> (length states = length sources \<longrightarrow>
            (\<exists>ps. project sources states = Obj ps \<and> length ps = length sources
               \<and> set (keys ps) = set (source_names sources)
               \<and> (\<forall>j<length sources.
                     get (sources ! j) ''name'' = Str (source_names sources ! j)
                     \<and> map_of ps (source_names sources ! j) = Some (states ! j))
               \<and> (\<not> list_ex is_array_index (source_names sources) \<longrightarrow>
                     keys ps = source_names sources)))"
proof (intro conjI impI)
  have r: "relay_sources r = sources" using createRelay_Return [OF assms(1)] by simp
  show "relay_state r (ins @ [(i, v)]) =
           relay_state r ins @
           (if list_all (\<lambda>j. latest (ins @ [(i, v)]) j \<noteq> None) [0..<length sources]
            then [project sources (map (\<lambda>j. the (latest (ins @ [(i, v)]) j)) [0..<length sources])]
            else [])"
    using relay_state_step [of r ins i v] by (simp only: r)
next
  assume len: "length states = length sources"
  have "\<not> is_Throw (createRelay name sources)" using assms(1) by simp
  then have ok: "list_all is_StateStream sources" "distinct (source_names sources)"
    "''__proto__'' \<notin> set (source_names sources)"
    by (simp_all add: createRelay_Throw_iff)
  have "Str (source_names sources ! j) = get (sources ! j) ''name''" if "j < length sources" for j
    using ok(1) assms(2) that by (simp add: list_all_length source_names_def string_named_key)
  then have nm: "\<forall>j<length sources. get (sources ! j) ''name'' = Str (source_names sources ! j)"
    by simp
  obtain ps where ps: "project sources states = Obj ps" "length ps = length sources"
      "set (keys ps) = set (source_names sources)"
      "\<forall>j<length sources. map_of ps (source_names sources ! j) = Some (states ! j)"
      "\<not> list_ex is_array_index (source_names sources) \<longrightarrow> keys ps = source_names sources"
    using project_snapshot [OF ok len] by blast
  show "\<exists>ps. project sources states = Obj ps \<and> length ps = length sources
               \<and> set (keys ps) = set (source_names sources)
               \<and> (\<forall>j<length sources.
                     get (sources ! j) ''name'' = Str (source_names sources ! j)
                     \<and> map_of ps (source_names sources ! j) = Some (states ! j))
               \<and> (\<not> list_ex is_array_index (source_names sources) \<longrightarrow>
                     keys ps = source_names sources)"
    using ps nm by (intro exI [of _ ps]) simp
qed

text \<open>
  The test of the specification: \<open>A\<close> goes from \<open>1\<close> to \<open>2\<close>, \<open>B\<close> stays at \<^verbatim>\<open>"x"\<close>; nothing is
  emitted before \<open>B\<close> has emitted.
\<close>

theorem relay_state_snapshot_witness:
  "relay_state \<lparr>relay_name = Str ''r'', relay_type = ''RELAY'',
       relay_sources = [stream_object ''A'' ''SOURCE'' 0, stream_object ''B'' ''SOURCE'' 1]\<rparr>
     [(0, Num 1), (1, Str ''x''), (0, Num 2)]
   = [Obj [(''A'', Num 1), (''B'', Str ''x'')], Obj [(''A'', Num 2), (''B'', Str ''x'')]]
   \<and> relay_state \<lparr>relay_name = Str ''r'', relay_type = ''RELAY'',
       relay_sources = [stream_object ''A'' ''SOURCE'' 0, stream_object ''B'' ''SOURCE'' 1]\<rparr>
     [(0, Num 1)] = []"
proof -
  let ?A = "stream_object ''A'' ''SOURCE'' 0" and ?B = "stream_object ''B'' ''SOURCE'' 1"
  let ?r = "\<lparr>relay_name = Str ''r'', relay_type = ''RELAY'', relay_sources = [?A, ?B]\<rparr>"
  have c: "createRelay (Str ''r'') [?A, ?B] = Return ?r"
    by (simp add: relay_defs)
  have s: "list_all string_named [?A, ?B]"
    by (simp add: relay_defs)
  have e: "relay_state ?r [] = []" by (simp add: relay_state_def)
  note t = relay_state_snapshot [OF c s]
  have 1: "relay_state ?r [(0, Num 1)] = []"
    using t [of "[]" 0 "Num 1" "[]"] e by (simp add: latest_def)
  have 2: "relay_state ?r [(0, Num 1), (1, Str ''x'')] = [Obj [(''A'', Num 1), (''B'', Str ''x'')]]"
    using t [of "[(0, Num 1)]" 1 "Str ''x''" "[]"] 1
    by (simp add: latest_def project_def stream_object_def obj_set_def is_array_index_def)
  have 3: "relay_state ?r [(0, Num 1), (1, Str ''x''), (0, Num 2)]
      = [Obj [(''A'', Num 1), (''B'', Str ''x'')], Obj [(''A'', Num 2), (''B'', Str ''x'')]]"
    using t [of "[(0, Num 1), (1, Str ''x'')]" 0 "Num 2" "[]"] 2
    by (simp add: latest_def project_def stream_object_def obj_set_def is_array_index_def)
  show ?thesis using 1 3 by simp
qed

text \<open>
  C5 as the specification states it promises the order of the sources for every choice
  of distinct names. With the sources named \<^verbatim>\<open>"2"\<close> and \<^verbatim>\<open>"1"\<close>, in this order, the relay is
  built and its snapshot lists the key \<^verbatim>\<open>"1"\<close> first.
\<close>

theorem relay_key_order_counterexample:
  "createRelay (Str ''r'') [stream_object ''2'' ''SOURCE'' 0, stream_object ''1'' ''SOURCE'' 1]
     = Return \<lparr>relay_name = Str ''r'', relay_type = ''RELAY'',
         relay_sources = [stream_object ''2'' ''SOURCE'' 0, stream_object ''1'' ''SOURCE'' 1]\<rparr>
   \<and> relay_state \<lparr>relay_name = Str ''r'', relay_type = ''RELAY'',
         relay_sources = [stream_object ''2'' ''SOURCE'' 0, stream_object ''1'' ''SOURCE'' 1]\<rparr>
       [(0, Str ''a''), (1, Str ''b'')]
     = [Obj [(''1'', Str ''b''), (''2'', Str ''a'')]]
   \<and> keys [(''1'', Str ''b''), (''2'', Str ''a'')]
       \<noteq> source_names [stream_object ''2'' ''SOURCE'' 0, stream_object ''1'' ''SOURCE'' 1]"
  by (simp add: relay_defs)




text \<open>
  C7, as amended. \<^verbatim>\<open>createStateStream\<close> throws the name error exactly when \<open>name\<close> is not
  a non-empty string; otherwise it throws the type error exactly when \<open>type\<close> is neither
  the string \<^verbatim>\<open>'SOURCE'\<close> nor the string \<^verbatim>\<open>'RELAY'\<close>, compared as written, without
  any normalisation of case; otherwise it returns what the source constructor returns,
  or returns or throws what the relay constructor returns or throws.
\<close>

theorem createStateStream_validation:
  "createStateStream name type initialState sources =
     (if \<not> nonempty_string name
      then Throw (Error ''Expected the name to be a not none string.'')
      else if type = Str ''SOURCE''
      then Return (Some (SourceStream (createSource name initialState)))
      else if type = Str ''RELAY''
      then (case createRelay name (the_sources sources) of
              Throw e \<Rightarrow> Throw e
            | Return r \<Rightarrow> Return (Some (RelayStream r)))
      else Throw (Error ''Expected the type to be one of [SOURCE, RELAY].''))
   \<and> (createStateStream name type initialState sources
         = Throw (Error ''Expected the name to be a not none string.'')
       \<longleftrightarrow> \<not> nonempty_string name)
   \<and> (createStateStream name type initialState sources
         = Throw (Error ''Expected the type to be one of [SOURCE, RELAY].'')
       \<longleftrightarrow> nonempty_string name \<and> type \<noteq> Str ''SOURCE'' \<and> type \<noteq> Str ''RELAY'')"
proof -
  have r: "createRelay name (the_sources sources) \<noteq> Throw (Error ''Expected the name to be a not none string.'')"
    "createRelay name (the_sources sources) \<noteq> Throw (Error ''Expected the type to be one of [SOURCE, RELAY].'')"
    using createRelay_errors [of name "the_sources sources"] by auto
  show ?thesis
    using r
    by (cases "createRelay name (the_sources sources)") (auto simp: createStateStream_eq)
qed

theorem createStateStream_validation_witness:
  "createStateStream (Str ''counter'') (Str ''SOURCE'') (Num 5) None
     = Return (Some (SourceStream (createSource (Str ''counter'') (Num 5))))
   \<and> createStateStream (Str '''') (Str ''SOURCE'') (Num 5) None
     = Throw (Error ''Expected the name to be a not none string.'')
   \<and> createStateStream (Str ''counter'') (Str ''Source'') (Num 5) None
     = Throw (Error ''Expected the type to be one of [SOURCE, RELAY].'')"
  using createStateStream_validation [of "Str ''counter''" "Str ''SOURCE''" "Num 5" None]
    createStateStream_validation [of "Str ''''" "Str ''SOURCE''" "Num 5" None]
    createStateStream_validation [of "Str ''counter''" "Str ''Source''" "Num 5" None]
  by simp

text \<open>
  C7 as the specification states it accepts every type whose upper-case form is
  \<^verbatim>\<open>'SOURCE'\<close> or \<^verbatim>\<open>'RELAY'\<close>. The type \<^verbatim>\<open>'source'\<close> has such a form and is refused: the
  membership test of lines 170--173 runs on the type as given, before \<^verbatim>\<open>toUpperCase\<close>.
\<close>

theorem lowercase_type_counterexample:
  "nonempty_string (Str ''s'') \<and> toUpperCase ''source'' = SOURCE
   \<and> createStateStream (Str ''s'') (Str ''source'') (Num 0) (Some [])
       = Throw (Error ''Expected the type to be one of [SOURCE, RELAY].'')"
  by (simp add: createStateStream_def SOURCE_def RELAY_def toUpperCase_constants)

text \<open>
  C8. \<^verbatim>\<open>observe(observer)\<close> throws when \<open>observer\<close> is not a function; otherwise it calls
  \<^verbatim>\<open>observer(state$)\<close> and throws when the result is not an Observable; otherwise it
  subscribes to the returned sequence and returns \<^verbatim>\<open>undefined\<close>, so no handle to
  unsubscribe.
\<close>

theorem observe_contract:
  "(typeof observer \<noteq> ''function'' \<longrightarrow>
      stateObserver env state observer subscribed
        = Throw (Error ''Expected observer to be a function.''))
   \<and> (observer = Fun g \<longrightarrow> (\<forall>stream. call_observer env g state \<noteq> Observable stream) \<longrightarrow>
      stateObserver env state observer subscribed
        = Throw (Error ''Expected observer return an Observable instance.''))
   \<and> (observer = Fun g \<longrightarrow> call_observer env g state = Observable stream \<longrightarrow>
      stateObserver env state observer subscribed = Return (Undefined, subscribed @ [stream]))"
  by (cases observer; cases "call_observer env g state") (simp_all add: stateObserver_def)

theorem observe_contract_witness:
  "stateObserver example_env (Observable 4) (Num 3) [] = Throw (Error ''Expected observer to be a function.'')
   \<and> stateObserver example_env (Observable 4) (Fun 1) []
        = Throw (Error ''Expected observer return an Observable instance.'')
   \<and> stateObserver example_env (Observable 4) (Fun 0) [] = Return (Undefined, [4])"
  using observe_contract [of "Num 3" example_env "Observable 4" "[]" 0 4]
    observe_contract [of "Fun 1" example_env "Observable 4" "[]" 1 4]
    observe_contract [of "Fun 0" example_env "Observable 4" "[]" 0 4]
  by (simp add: example_env_def)

text \<open>
  C9, as amended. Let \<^verbatim>\<open>createEvent(g)\<close> return the dispatcher \<open>d\<close>. Every call of \<open>d\<close>, in
  any state and with any parameters, returns \<^verbatim>\<open>first()\<close> of one and the same subject, the
  one allocated by that registration. As long as \<open>g\<close> is not registered again, this is
  the subject attached to \<open>g\<close>. A subscriber of the returned sequence is delivered the
  next value pushed into the subject after it subscribed and is then removed. Every
  subscriber waiting on the subject, from whichever call, is delivered the reply of the
  next update of the handler.
\<close>

theorem dispatcher_shares_reply_channel:
  assumes "createEvent (Fun g) st = Return (d, st1)"
    and "list_all (\<lambda>a. a \<noteq> Register (Fun g)) as"
  shows "fst (call_dispatcher env d params st') = First (snd d)
     \<and> map_of (subjectOf (run env st1 as)) g = Some (snd d)
     \<and> replies (subject_next (snd d) v (subscribe_reply (First (snd d)) k st'))
         = replies st' @ map (\<lambda>(s', k'). (k', v)) (filter (\<lambda>(s', k'). s' = snd d) (waiting st'))
             @ [(k, v)]
     \<and> filter (\<lambda>(s', k'). s' = snd d)
          (waiting (subject_next (snd d) v (subscribe_reply (First (snd d)) k st'))) = []
     \<and> (u \<noteq> Undefined \<longrightarrow>
          replies (handler_next env g u (run env st1 as))
            = replies (run env st1 as)
              @ map (\<lambda>(s', k'). (k', Obj [(''state'', next_state env u (run env st1 as))]))
                  (filter (\<lambda>(s', k'). s' = snd d) (waiting (run env st1 as))))"
proof -
  have s: "map_of (subjectOf (run env st1 as)) g = Some (snd d)"
    using createEvent_Return [OF assms(1)] run_subjectOf [OF assms(2), of env st1] by simp
  have f: "filter (\<lambda>(s', k'). s' = snd d)
          (waiting (subject_next (snd d) v (subscribe_reply (First (snd d)) k st'))) = []"
    by (auto simp: subject_next_def filter_empty_conv)
  show ?thesis
    using s f handler_next_effect(4) [OF _ s, of u env]
    by (simp add: call_dispatcher_def subject_next_def)
qed

text \<open>
  Two racing calls: the update that belongs to the second call arrives first and
  resolves both reply sequences.
\<close>

theorem dispatcher_shares_reply_channel_witness:
  "fst (call_dispatcher example_env (2, 0) [Str ''first''] (createSource (Str ''s'') (Num 0))) = First 0
   \<and> fst (call_dispatcher example_env (2, 0) [Str ''second''] (createSource (Str ''s'') (Num 0))) = First 0
   \<and> replies (handler_next example_env 2 (Str ''from the second call'')
        (run example_env (run example_env (createSource (Str ''s'') (Num 0)) [Register (Fun 2)]) racing))
      = [(11, Obj [(''state'', Str ''from the second call'')]),
         (12, Obj [(''state'', Str ''from the second call'')])]"
proof -
  let ?st = "createSource (Str ''s'') (Num 0)"
  let ?st1 = "run example_env ?st [Register (Fun 2)]"
  have c: "createEvent (Fun 2) ?st = Return ((2, 0), ?st1)"
    by (simp add: source_defs)
  have a: "list_all (\<lambda>a. a \<noteq> Register (Fun 2)) racing"
    by (simp add: racing_def)
  note t = dispatcher_shares_reply_channel [OF c a, of example_env]
  show ?thesis
    using t [of "[Str ''first'']" ?st Undefined 0 "Str ''from the second call''"]
      t [of "[Str ''second'']" ?st Undefined 0 "Str ''from the second call''"]
    by (simp add: racing_def source_defs)
qed

text \<open>
  C9 as the specification states it holds for every registered handler. When the same
  function is registered a second time, \<^verbatim>\<open>fn.subject\<close> is overwritten: the first
  dispatcher still returns \<^verbatim>\<open>first()\<close> of subject \<open>0\<close>, the handler's subject is \<open>1\<close>, the
  reply is pushed into \<open>1\<close> and the subscriber of the first dispatcher's sequence is
  delivered nothing.
\<close>

theorem registered_twice_counterexample:
  "map_option fst (returned (createEvent (Fun 2) (createSource (Str ''s'') (Num 0)))) = Some (2, 0)
   \<and> fst (call_dispatcher example_env (2, 0) [] twice) = First 0
   \<and> map_of (subjectOf twice) 2 = Some 1
   \<and> pushed (run example_env twice [Call (2, 0) [], SubscribeReply (First 0) 11, Emit 2 (Num 7)])
       = [(1, Obj [(''state'', Num 7)])]
   \<and> replies (run example_env twice [Call (2, 0) [], SubscribeReply (First 0) 11, Emit 2 (Num 7)])
       = []"
  by (simp add: twice_def source_defs)

text \<open>
  C10, as amended. When both guards of \<^verbatim>\<open>createStateStream\<close> pass, the type in upper
  case is \<^verbatim>\<open>'SOURCE'\<close> or \<^verbatim>\<open>'RELAY'\<close>, so the final \<^verbatim>\<open>return null\<close> is never reached. With
  \<^verbatim>\<open>'SOURCE'\<close> the call returns the source stream. With \<^verbatim>\<open>'RELAY'\<close> it returns the relay
  stream when the relay constructor returns one, and otherwise throws the very error
  the relay constructor throws.
\<close>

theorem createStateStream_never_null:
  assumes "validation_passes name type"
  shows "createStateStream name type initialState sources \<noteq> Return None
    \<and> (\<exists>t. type = Str t \<and> (toUpperCase t = SOURCE \<or> toUpperCase t = RELAY))
    \<and> ((type = Str SOURCE
          \<and> createStateStream name type initialState sources
              = Return (Some (SourceStream (createSource name initialState))))
        \<or> (type = Str RELAY
            \<and> (\<exists>r. createRelay name (the_sources sources) = Return r
                  \<and> createStateStream name type initialState sources = Return (Some (RelayStream r))))
        \<or> (type = Str RELAY
            \<and> (\<exists>e. createRelay name (the_sources sources) = Throw e
                  \<and> createStateStream name type initialState sources = Throw e)))"
proof -
  have v: "nonempty_string name" "type = Str ''SOURCE'' \<or> type = Str ''RELAY''"
    using assms by (simp_all add: validation_passes_iff)
  have u: "\<exists>t. type = Str t \<and> (toUpperCase t = SOURCE \<or> toUpperCase t = RELAY)"
    using v(2) by (auto simp: SOURCE_def RELAY_def toUpperCase_constants)
  show ?thesis
  proof (cases "type = Str ''SOURCE''")
    case True
    then show ?thesis using v(1) u by (simp add: createStateStream_eq SOURCE_def)
  next
    case False
    then have t: "type = Str ''RELAY''" using v(2) by simp
    show ?thesis
      using v(1) u t
      by (cases "createRelay name (the_sources sources)")
         (simp_all add: createStateStream_eq SOURCE_def RELAY_def)
  qed
qed

theorem createStateStream_never_null_witness:
  "validation_passes (Str ''counter'') (Str ''SOURCE'')
   \<and> createStateStream (Str ''counter'') (Str ''SOURCE'') (Num 5) None \<noteq> Return None
   \<and> createStateStream (Str ''counter'') (Str ''SOURCE'') (Num 5) None
       = Return (Some (SourceStream (createSource (Str ''counter'') (Num 5))))
   \<and> validation_passes (Str ''r'') (Str ''RELAY'')
   \<and> createStateStream (Str ''r'') (Str ''RELAY'') Null
         (Some [stream_object ''A'' ''SOURCE'' 0, stream_object ''B'' ''SOURCE'' 1])
       = Return (Some (RelayStream \<lparr>relay_name = Str ''r'', relay_type = ''RELAY'',
           relay_sources = [stream_object ''A'' ''SOURCE'' 0, stream_object ''B'' ''SOURCE'' 1]\<rparr>))"
proof -
  let ?A = "stream_object ''A'' ''SOURCE'' 0" and ?B = "stream_object ''B'' ''SOURCE'' 1"
  have v: "validation_passes (Str ''counter'') (Str ''SOURCE'')"
    by (simp add: validation_passes_def SOURCE_def RELAY_def)
  have w: "validation_passes (Str ''r'') (Str ''RELAY'')"
    by (simp add: validation_passes_def SOURCE_def RELAY_def)
  have c: "createRelay (Str ''r'') (the_sources (Some [?A, ?B]))
             = Return \<lparr>relay_name = Str ''r'', relay_type = ''RELAY'', relay_sources = [?A, ?B]\<rparr>"
    by (simp add: the_sources_def relay_defs)
  show ?thesis
    using v w c createStateStream_never_null [OF v, of "Num 5" None]
      createStateStream_never_null [OF w, of Null "Some [?A, ?B]"]
    by (auto simp: SOURCE_def RELAY_def)
qed

text \<open>
  C10 as the specification states it promises a stream object whenever the name and
  the type are valid. A relay asked for without sources passes both guards and throws.
\<close>

theorem relay_without_sources_counterexample:
  "validation_passes (Str ''r'') (Str ''RELAY'')
   \<and> createStateStream (Str ''r'') (Str ''RELAY'') Null None
       = Throw (Error ''Expected the sources to be passed.'')"
  by (simp add: validation_passes_def createStateStream_def createRelay_def SOURCE_def RELAY_def
        toUpperCase_constants)

section \<open>Further facts about the code\<close>

text \<open>
  A source named \<^verbatim>\<open>__proto__\<close> leaves no key in \<^verbatim>\<open>sourceNames\<close>, so a list of one valid
  source is refused with the message for duplicate names.
\<close>

lemma proto_named_source_refused:
  "createRelay name [stream_object ''__proto__'' ''SOURCE'' r]
     = Throw (Error ''Sources' name should be unique.'')"
  by (simp add: relay_defs)

text \<open>
  \<^verbatim>\<open>null\<close> passes \<^verbatim>\<open>typeof source !== 'object'\<close>; reading its \<^verbatim>\<open>name\<close> throws a TypeError,
  unless an earlier entry has already been refused.
\<close>

lemma null_source_type_error:
  "createRelay name (Null # rest) = Throw TypeError"
  by (simp add: createRelay_def)

lemma invalid_entry_before_null:
  "createRelayStateStream (Str ''r'') (Some [Obj [], Null])
     = Throw (Error ''Expected the source to be type of StateStream.'')"
  by (simp add: createRelayStateStream_eq createRelay_def the_sources_def)

text \<open>
  A handler whose sequence emits synchronously: the reply is pushed into the subject
  while the dispatcher is still running, before \<^verbatim>\<open>subject.first()\<close> is returned. It
  reaches the subscribers that were already waiting; a subscriber of the sequence this
  call returns is not delivered it and goes on waiting for the next reply.
\<close>

lemma synchronous_reply_not_received:
  assumes "createEvent (Fun g) st0 = Return (d, st)"
    and "handler_emits env g (Obj [(''state'', stateValue st)]) params = [u]"
    and "u \<noteq> Undefined"
  shows "call_dispatcher env d params st = (First (snd d), handler_next env g u st)
     \<and> pushed (handler_next env g u st)
         = pushed st @ [(snd d, Obj [(''state'', next_state env u st)])]
     \<and> replies (subscribe_reply (First (snd d)) k (handler_next env g u st))
         = replies st @ map (\<lambda>(s', k'). (k', Obj [(''state'', next_state env u st)]))
                          (filter (\<lambda>(s', k'). s' = snd d) (waiting st))
     \<and> waiting (subscribe_reply (First (snd d)) k (handler_next env g u st))
         = filter (\<lambda>(s', k'). s' \<noteq> snd d) (waiting st) @ [(snd d, k)]"
proof -
  have c: "fst d = g" "map_of (subjectOf st) g = Some (snd d)" "g \<in> set (observers st)"
    using createEvent_Return [OF assms(1)] by auto
  have f: "find (\<lambda>observer. Fun observer = Fun g) (observers st) = Some g"
    using c(3) by (rule find_registered)
  have e: "call_dispatcher env d params st = (First (snd d), handler_next env g u st)"
    using f assms(2) c(1) by (simp add: call_dispatcher_def dispatch_def)
  show ?thesis
    using e handler_next_effect(3,4) [OF assms(3) c(2), of env]
      waiting_handler_next [OF assms(3) c(2), of env]
    by simp
qed

lemma synchronous_reply_example:
  "call_dispatcher example_env (0, 0) [] (run example_env (createSource (Str ''counter'') (Num 5)) [Register (Fun 0)])
     = (First 0, handler_next example_env 0 (Fun 1) (run example_env (createSource (Str ''counter'') (Num 5)) [Register (Fun 0)]))
   \<and> pushed (handler_next example_env 0 (Fun 1) (run example_env (createSource (Str ''counter'') (Num 5)) [Register (Fun 0)]))
     = [(0, Obj [(''state'', Num 6)])]
   \<and> replies (subscribe_reply (First 0) 11
        (handler_next example_env 0 (Fun 1) (run example_env (createSource (Str ''counter'') (Num 5)) [Register (Fun 0)]))) = []
   \<and> waiting (subscribe_reply (First 0) 11
        (handler_next example_env 0 (Fun 1) (run example_env (createSource (Str ''counter'') (Num 5)) [Register (Fun 0)]))) = [(0, 11)]"
proof -
  let ?fresh = "createSource (Str ''counter'') (Num 5)"
  let ?reg = "run example_env ?fresh [Register (Fun 0)]"
  have c: "createEvent (Fun 0) ?fresh = Return ((0, 0), ?reg)" by (simp add: source_defs)
  have h: "handler_emits example_env 0 (Obj [(''state'', stateValue ?reg)]) [] = [Fun 1]"
    by (simp add: example_env_def)
  have u: "Fun 1 \<noteq> Undefined" by simp
  show ?thesis
    using synchronous_reply_not_received [OF c h u, of 11] by (simp add: source_defs)
qed

end
